theory Spec2Isabelle
  imports Main
begin

section \<open>The experiment-script parser (Parser, version 2)\<close>

text \<open>
  The development embeds \<^verbatim>\<open>src/parser.v2.js\<close> (the compiled form of
  \<^verbatim>\<open>src/parser.v2.ts\<close>). Strings are \<^typ>\<open>string\<close>; one \<^typ>\<open>char\<close> stands for one
  element of the JavaScript string iteration. A JavaScript value that may be
  \<^verbatim>\<open>undefined\<close> (an array element read past the end by destructuring) is an
  option: \<open>None\<close> is \<^verbatim>\<open>undefined\<close>. Every \<^verbatim>\<open>throw\<close> is a value \<open>Inl e\<close>
  of a sum type.
\<close>

subsection \<open>Errors\<close>

text \<open>
  The source throws plain \<^verbatim>\<open>Error\<close> objects that differ in their message; the
  constructors name the throwing site and carry the value interpolated into
  the message. \<open>TypeError\<close> is what the runtime raises for
  \<^verbatim>\<open>undefined.split(",")\<close>.
\<close>

datatype error =
    SectionNotFound string
  | InvalidStimulusType "string option"
  | UnknownStimulusIdentifier string
  | InvalidFeedbackType "string option"
  | TypeError

subsection \<open>Runtime helpers used by the source\<close>

text \<open>
  \<^verbatim>\<open>text.split(sep)\<close> for a separator of one character: the spans between
  consecutive occurrences of the separator, empty spans included; the empty
  string gives one empty span.
\<close>

fun js_split :: "string \<Rightarrow> char \<Rightarrow> string list" where
  "js_split [] sep = [[]]"
| "js_split (c # cs) sep =
     (if c = sep then [] # js_split cs sep
      else (case js_split cs sep of
              [] \<Rightarrow> [[c]]
            | w # ws \<Rightarrow> (c # w) # ws))"

text \<open>\<^verbatim>\<open>xs.slice(a, b)\<close> for indices \<open>0 \<le> a\<close> and \<open>0 \<le> b\<close>.\<close>

definition slice :: "nat \<Rightarrow> nat \<Rightarrow> 'a list \<Rightarrow> 'a list" where
  "slice a b xs = drop a (take b xs)"

text \<open>
  Array destructuring \<^verbatim>\<open>const [a, b, ...] = xs\<close>: position \<open>i\<close> reads \<open>xs[i]\<close>,
  which is \<^verbatim>\<open>undefined\<close> past the end.
\<close>

definition element :: "'a list \<Rightarrow> nat \<Rightarrow> 'a option" where
  "element xs i = (if i < length xs then Some (xs ! i) else None)"

text \<open>
  \<^verbatim>\<open>s.trim()\<close> removes white space and line terminators at both ends. Among
  the values of \<^typ>\<open>char\<close> these are tab, line feed, vertical tab, form feed,
  carriage return, space and the no-break space U+00A0.
\<close>

definition isWhiteSpace :: "char \<Rightarrow> bool" where
  "isWhiteSpace c \<longleftrightarrow>
     c \<in> {CHR 0x20, CHR 0x09, CHR 0x0A, CHR 0x0B, CHR 0x0C, CHR 0x0D, CHR 0xA0}"

definition trim :: "string \<Rightarrow> string" where
  "trim s = rev (dropWhile isWhiteSpace (rev (dropWhile isWhiteSpace s)))"

subsection \<open>Section extraction\<close>

definition startMarker :: "string \<Rightarrow> string" where
  "startMarker keyword = ''['' @ keyword @ '']''"

definition endMarker :: "string \<Rightarrow> string" where
  "endMarker keyword = ''[End'' @ keyword @ '']''"

text \<open>
  The \<^verbatim>\<open>for\<close> loop of \<^verbatim>\<open>extractInstructionsFromSection\<close>: the list is the part
  of \<^verbatim>\<open>instructions\<close> from \<open>index\<close> on, the two options are
  \<^verbatim>\<open>sectionStartIndex\<close> and \<^verbatim>\<open>sectionEndIndex\<close> (\<open>None\<close> is \<^verbatim>\<open>null\<close>). A start
  marker overwrites the start index and the loop goes on; an end marker sets
  the end index and breaks.
\<close>

fun sectionScan ::
  "string \<Rightarrow> string list \<Rightarrow> nat \<Rightarrow> nat option \<Rightarrow> nat option \<Rightarrow> nat option \<times> nat option"
where
  "sectionScan keyword [] index sectionStartIndex sectionEndIndex =
     (sectionStartIndex, sectionEndIndex)"
| "sectionScan keyword (instruction # rest) index sectionStartIndex sectionEndIndex =
     (if instruction = startMarker keyword
      then sectionScan keyword rest (Suc index) (Some index) sectionEndIndex
      else if instruction = endMarker keyword
      then (sectionStartIndex, Some index)
      else sectionScan keyword rest (Suc index) sectionStartIndex sectionEndIndex)"

definition extractInstructionsFromSection ::
  "string \<Rightarrow> string list \<Rightarrow> error + string list"
where
  "extractInstructionsFromSection keyword instructions =
     (case sectionScan keyword instructions 0 None None of
        (Some sectionStartIndex, Some sectionEndIndex) \<Rightarrow>
          Inr (slice (sectionStartIndex + 1) sectionEndIndex instructions)
      | _ \<Rightarrow> Inl (SectionNotFound keyword))"

subsection \<open>Section extraction in the earlier revision\<close>

text \<open>
  \<^verbatim>\<open>src/unnamed/part_000\<close> is an earlier copy of the same class. Its
  extractor declares \<^verbatim>\<open>let sectionStartIndex, sectionEndIndex = null\<close>, which
  leaves the start index \<^verbatim>\<open>undefined\<close>, so that the test
  \<^verbatim>\<open>sectionStartIndex === null\<close> never holds and the slice starts at
  \<^verbatim>\<open>undefined + 1\<close>, which \<^verbatim>\<open>slice\<close> reads as 0.
\<close>

definition extractInstructionsFromSection_v1 ::
  "string \<Rightarrow> string list \<Rightarrow> error + string list"
where
  "extractInstructionsFromSection_v1 keyword instructions =
     (case sectionScan keyword instructions 0 None None of
        (Some sectionStartIndex, Some sectionEndIndex) \<Rightarrow>
          Inr (slice (sectionStartIndex + 1) sectionEndIndex instructions)
      | (None, Some sectionEndIndex) \<Rightarrow> Inr (slice 0 sectionEndIndex instructions)
      | (_, None) \<Rightarrow> Inl (SectionNotFound keyword))"

subsection \<open>Section extraction as the specification words it\<close>

text \<open>
  The specification's description of the extractor, for comparison with the
  code: the start boundary is the first index whose line equals the start
  marker, the end boundary the first end marker after it, and the result the
  lines strictly between the two.
\<close>

fun firstIndex :: "'a \<Rightarrow> 'a list \<Rightarrow> nat option" where
  "firstIndex x [] = None"
| "firstIndex x (y # ys) =
     (if y = x then Some 0 else map_option Suc (firstIndex x ys))"

definition spec_extract :: "string \<Rightarrow> string list \<Rightarrow> error + string list" where
  "spec_extract keyword instructions =
     (case firstIndex (startMarker keyword) instructions of
        None \<Rightarrow> Inl (SectionNotFound keyword)
      | Some s \<Rightarrow>
          (case firstIndex (endMarker keyword) (drop (s + 1) instructions) of
             None \<Rightarrow> Inl (SectionNotFound keyword)
           | Some d \<Rightarrow> Inr (slice (s + 1) (s + 1 + d) instructions)))"

subsection \<open>Tokenizer\<close>

text \<open>
  The \<^verbatim>\<open>for (let char of text)\<close> loop of \<^verbatim>\<open>splitWithEscapedCharacter\<close> with its
  three variables. The \<^verbatim>\<open>switch\<close> tests \<^verbatim>\<open>pairChar\<close> before \<^verbatim>\<open>splitChar\<close>.
  The two parameters are single characters, as the documentation comment of
  the function says and as its only caller passes them.
\<close>

fun splitLoop ::
  "char \<Rightarrow> char \<Rightarrow> string \<Rightarrow> bool \<Rightarrow> string list \<Rightarrow> string \<Rightarrow> string list"
where
  "splitLoop splitChar pairChar [] isPairOpen resultArray wordBuffer = resultArray"
| "splitLoop splitChar pairChar (c # cs) isPairOpen resultArray wordBuffer =
     (if c = pairChar
      then splitLoop splitChar pairChar cs (\<not> isPairOpen) resultArray wordBuffer
      else if c = splitChar
      then (if isPairOpen
            then splitLoop splitChar pairChar cs isPairOpen resultArray (wordBuffer @ [c])
            else splitLoop splitChar pairChar cs isPairOpen (resultArray @ [wordBuffer]) [])
      else splitLoop splitChar pairChar cs isPairOpen resultArray (wordBuffer @ [c]))"

definition splitWithEscapedCharacter :: "string \<Rightarrow> char \<Rightarrow> char \<Rightarrow> string list" where
  "splitWithEscapedCharacter text splitChar pairChar =
     splitLoop splitChar pairChar (text @ [splitChar]) False [] []"

subsection \<open>Values of the decoded entities\<close>

text \<open>
  A token is an element of a split line, or \<^verbatim>\<open>undefined\<close>. An object property
  is \<open>Absent\<close> when the object literal does not mention it and \<open>Present v\<close>
  when it does (also when \<open>v\<close> is \<^verbatim>\<open>undefined\<close>). Numbers stay symbolic:
  \<open>ToNumber t\<close> is the Number that unary plus makes of \<open>t\<close> (in sequence
  steps) and \<open>ParseInt t\<close> the one that \<^verbatim>\<open>parseInt\<close> makes of it (in
  stimulus entities), so that no floating-point arithmetic is modelled.
\<close>

type_synonym token = "string option"

datatype 'a property = Absent | Present 'a

datatype number = ToNumber token

datatype parsedInt = ParseInt token

datatype 'a nullable = Null | Value 'a

datatype numberOrSentinel = Sentinel string | Numeric number

record Stimulus =
  stimulusType :: token
  filePath :: "token property"
  button :: "bool property"
  content :: "token property"
  fontSize :: "parsedInt nullable property"
  fontColor :: "token nullable property"

text \<open>
  What the property read \<^verbatim>\<open>this.stimulus[name]\<close> can evaluate to. The catalog
  is a plain object, so that a read which finds no own property goes on to
  the prototype: the value is an entity, or \<^verbatim>\<open>undefined\<close>, or a property of an
  entity that became the prototype (a string, a boolean, \<^verbatim>\<open>null\<close>, the result
  of \<^verbatim>\<open>parseInt\<close>), or a method that every object inherits from
  \<^verbatim>\<open>Object.prototype\<close>, or \<^verbatim>\<open>Object.prototype\<close> itself.
\<close>

datatype jsValue =
    Undefined
  | NullValue
  | StringValue string
  | BooleanValue bool
  | NumberValue parsedInt
  | StimulusValue Stimulus
  | ObjectPrototype
  | BuiltinFunction string

datatype choicesValue = ChoicesSentinel string | ChoiceList "jsValue list"

record Sequence =
  onSetTime :: number
  identifier' :: token
  stimulusDuration :: numberOrSentinel
  choices :: choicesValue
  choiceDuration :: numberOrSentinel
  answer :: token
  choiceOnsetRelativeToSim :: numberOrSentinel
  reactionTime :: numberOrSentinel
  feedbackType :: token
  feedbackDuration :: numberOrSentinel
  test :: token
  feedback1 :: "token property"
  feedback2 :: "token property"

text \<open>
  The state of a \<^verbatim>\<open>Parser\<close> object. The object \<^verbatim>\<open>this.stimulus\<close> is given by
  its own properties, the map \<open>stimulus\<close>, and by its prototype:
  \<open>stimulusPrototype\<close> is \<open>None\<close> while the prototype is \<^verbatim>\<open>Object.prototype\<close>,
  as it is for the \<^verbatim>\<open>{}\<close> of the constructor, and \<open>Some e\<close> once an assignment
  to the name \<^verbatim>\<open>__proto__\<close> has made the entity \<open>e\<close> the prototype. The object
  \<^verbatim>\<open>this.sequences\<close> is only written, under three fixed names, and is the map
  of its own properties.
\<close>

record Parser =
  instructions :: "string list"
  stimulusInstructions :: "string list"
  preSequenceInstructions :: "string list"
  mainSequenceInstructions :: "string list"
  postSequenceInstructions :: "string list"
  stimulus :: "string \<rightharpoonup> Stimulus"
  stimulusPrototype :: "Stimulus option"
  sequences :: "string \<rightharpoonup> Sequence list"

subsection \<open>Constructor and section split\<close>

definition new_Parser :: "string \<Rightarrow> Parser" where
  "new_Parser rawInstructions =
     \<lparr> instructions = map trim (js_split rawInstructions CHR 0x0A),
       stimulusInstructions = [],
       preSequenceInstructions = [],
       mainSequenceInstructions = [],
       postSequenceInstructions = [],
       stimulus = Map.empty,
       stimulusPrototype = None,
       sequences = Map.empty \<rparr>"


subsection \<open>Stimulus decoding\<close>

text \<open>\<^verbatim>\<open>!!button\<close>: \<^verbatim>\<open>undefined\<close> and the empty string are falsy.\<close>

definition truthy :: "token \<Rightarrow> bool" where
  "truthy t = (case t of None \<Rightarrow> False | Some s \<Rightarrow> s \<noteq> [])"

text \<open>The property name that \<^verbatim>\<open>this.stimulus[identifier] = ...\<close> writes.\<close>

definition propertyKey :: "token \<Rightarrow> string" where
  "propertyKey t = (case t of None \<Rightarrow> ''undefined'' | Some s \<Rightarrow> s)"

definition fontSizeOf :: "token \<Rightarrow> parsedInt nullable" where
  "fontSizeOf t = (if t = Some ''n'' then Null else Value (ParseInt t))"

definition fontColorOf :: "token \<Rightarrow> token nullable" where
  "fontColorOf t = (if t = Some ''n'' then Null else Value t)"

text \<open>
  The body of the loop of \<^verbatim>\<open>parseStimulus\<close> up to the assignment: the object
  built for one line of the stimulus section, or the error of the
  \<^verbatim>\<open>default\<close> case.
\<close>

definition stimulusOfInstruction :: "string \<Rightarrow> error + Stimulus" where
  "stimulusOfInstruction currentStimulusInstruction =
     (let splittedStimulusInstruction =
            splitWithEscapedCharacter currentStimulusInstruction CHR 0x20 CHR 0x22;
          stimulusType = element splittedStimulusInstruction 0;
          left = drop 2 splittedStimulusInstruction
      in if stimulusType = Some ''image'' then
           Inr \<lparr> stimulusType = stimulusType,
                 filePath = Present (element left 0),
                 button = Present (truthy (element left 1)),
                 content = Absent, fontSize = Absent, fontColor = Absent \<rparr>
         else if stimulusType = Some ''text'' then
           Inr \<lparr> stimulusType = stimulusType,
                 filePath = Absent, button = Absent,
                 content = Present (element left 0),
                 fontSize = Present (fontSizeOf (element left 1)),
                 fontColor = Present (fontColorOf (element left 2)) \<rparr>
         else if stimulusType = Some ''text_file'' then
           Inr \<lparr> stimulusType = stimulusType,
                 filePath = Present (element left 0),
                 button = Absent, content = Absent,
                 fontSize = Present (fontSizeOf (element left 1)),
                 fontColor = Present (fontColorOf (element left 2)) \<rparr>
         else if stimulusType = Some ''audio'' \<or> stimulusType = Some ''video'' then
           Inr \<lparr> stimulusType = stimulusType,
                 filePath = Present (element splittedStimulusInstruction 0),
                 button = Absent, content = Absent,
                 fontSize = Absent, fontColor = Absent \<rparr>
         else Inl (InvalidStimulusType stimulusType))"

text \<open>The first two tokens of a stimulus line, as the destructuring names them.\<close>

definition stimulusTypeOfInstruction :: "string \<Rightarrow> token" where
  "stimulusTypeOfInstruction currentStimulusInstruction =
     element (splitWithEscapedCharacter currentStimulusInstruction CHR 0x20 CHR 0x22) 0"

definition identifierOfInstruction :: "string \<Rightarrow> token" where
  "identifierOfInstruction currentStimulusInstruction =
     element (splitWithEscapedCharacter currentStimulusInstruction CHR 0x20 CHR 0x22) 1"

text \<open>
  The assignment \<^verbatim>\<open>this.stimulus[identifier] = stimulus\<close>. Under every name
  but one it creates or overwrites an own property (also under a name that is
  inherited, such as \<^verbatim>\<open>constructor\<close>: what is inherited there is a writable
  data property). The name \<^verbatim>\<open>__proto__\<close> is an accessor of
  \<^verbatim>\<open>Object.prototype\<close>, and its setter makes the assigned object the
  prototype of the catalog and adds no own property.
\<close>

definition assignStimulus :: "Parser \<Rightarrow> token \<Rightarrow> Stimulus \<Rightarrow> Parser" where
  "assignStimulus this t s =
     (if propertyKey t = ''__proto__''
      then this\<lparr> stimulusPrototype := Some s \<rparr>
      else this\<lparr> stimulus := (stimulus this)(propertyKey t \<mapsto> s) \<rparr>)"

text \<open>The loop of \<^verbatim>\<open>parseStimulus\<close> over the remaining lines.\<close>

fun parseStimulusLoop :: "string list \<Rightarrow> Parser \<Rightarrow> error + Parser" where
  "parseStimulusLoop [] this = Inr this"
| "parseStimulusLoop (instruction # rest) this =
     (case stimulusOfInstruction instruction of
        Inl e \<Rightarrow> Inl e
      | Inr s \<Rightarrow>
          parseStimulusLoop rest
            (assignStimulus this (identifierOfInstruction instruction) s))"

definition parseStimulus :: "Parser \<Rightarrow> error + Parser" where
  "parseStimulus this = parseStimulusLoop (stimulusInstructions this) this"

subsection \<open>Sequence decoding\<close>

text \<open>The own properties of an entity, as the object literals of \<^verbatim>\<open>parseStimulus\<close> list them.\<close>

definition tokenValue :: "token \<Rightarrow> jsValue" where
  "tokenValue t = (case t of None \<Rightarrow> Undefined | Some s \<Rightarrow> StringValue s)"

definition propertyOfStimulus :: "Stimulus \<Rightarrow> string \<Rightarrow> jsValue option" where
  "propertyOfStimulus e name =
     (if name = ''stimulusType'' then Some (tokenValue (stimulusType e))
      else if name = ''filePath'' then
        (case filePath e of Absent \<Rightarrow> None | Present t \<Rightarrow> Some (tokenValue t))
      else if name = ''button'' then
        (case button e of Absent \<Rightarrow> None | Present b \<Rightarrow> Some (BooleanValue b))
      else if name = ''content'' then
        (case content e of Absent \<Rightarrow> None | Present t \<Rightarrow> Some (tokenValue t))
      else if name = ''fontSize'' then
        (case fontSize e of
           Absent \<Rightarrow> None
         | Present Null \<Rightarrow> Some NullValue
         | Present (Value n) \<Rightarrow> Some (NumberValue n))
      else if name = ''fontColor'' then
        (case fontColor e of
           Absent \<Rightarrow> None
         | Present Null \<Rightarrow> Some NullValue
         | Present (Value t) \<Rightarrow> Some (tokenValue t))
      else None)"

text \<open>The methods that every object inherits from \<^verbatim>\<open>Object.prototype\<close>.\<close>

definition objectPrototypeMethods :: "string list" where
  "objectPrototypeMethods =
     [''constructor'', ''__defineGetter__'', ''__defineSetter__'', ''hasOwnProperty'',
      ''__lookupGetter__'', ''__lookupSetter__'', ''isPrototypeOf'',
      ''propertyIsEnumerable'', ''toString'', ''valueOf'', ''toLocaleString'']"

text \<open>
  The property read \<^verbatim>\<open>this.stimulus[name]\<close>: the own property; else the
  property of the entity that is the prototype, if there is one; else what
  \<^verbatim>\<open>Object.prototype\<close> has under the name, where the getter of \<^verbatim>\<open>__proto__\<close>
  returns the prototype of the catalog; else \<^verbatim>\<open>undefined\<close>.
\<close>

definition readStimulus :: "Parser \<Rightarrow> string \<Rightarrow> jsValue" where
  "readStimulus this name =
     (case stimulus this name of
        Some e \<Rightarrow> StimulusValue e
      | None \<Rightarrow>
          (case (case stimulusPrototype this of
                   None \<Rightarrow> None
                 | Some e \<Rightarrow> propertyOfStimulus e name) of
             Some v \<Rightarrow> v
           | None \<Rightarrow>
               if name = ''__proto__'' then
                 (case stimulusPrototype this of
                    None \<Rightarrow> ObjectPrototype
                  | Some e \<Rightarrow> StimulusValue e)
               else if name \<in> set objectPrototypeMethods then BuiltinFunction name
               else Undefined))"

text \<open>
  Whether \<^verbatim>\<open>parseInt(t)\<close> is a number other than \<^verbatim>\<open>NaN\<close> and zero: after
  leading white space, a sign and the prefix \<^verbatim>\<open>0x\<close> that selects radix 16,
  the longest run of digits holds a digit other than \<^verbatim>\<open>0\<close>. (The argument
  \<^verbatim>\<open>undefined\<close> is read as the string \<^verbatim>\<open>undefined\<close>, which has no digit.)
\<close>

definition isDecimalDigit :: "char \<Rightarrow> bool" where
  "isDecimalDigit c \<longleftrightarrow> c \<in> set ''0123456789''"

definition isHexDigit :: "char \<Rightarrow> bool" where
  "isHexDigit c \<longleftrightarrow> c \<in> set ''0123456789abcdefABCDEF''"

definition parseIntIsTruthy :: "token \<Rightarrow> bool" where
  "parseIntIsTruthy t =
     (case t of
        None \<Rightarrow> False
      | Some s \<Rightarrow>
          (let s1 = dropWhile isWhiteSpace s;
               s2 = (case s1 of
                       [] \<Rightarrow> s1
                     | c # cs \<Rightarrow> if c = CHR ''+'' \<or> c = CHR ''-'' then cs else s1);
               digits = (if take 2 s2 = ''0x'' \<or> take 2 s2 = ''0X''
                         then takeWhile isHexDigit (drop 2 s2)
                         else takeWhile isDecimalDigit s2)
           in list_ex (\<lambda>c. c \<noteq> CHR ''0'') digits))"

text \<open>The test \<^verbatim>\<open>if (found)\<close>.\<close>

fun isTruthy :: "jsValue \<Rightarrow> bool" where
  "isTruthy Undefined = False"
| "isTruthy NullValue = False"
| "isTruthy (StringValue s) = (s \<noteq> [])"
| "isTruthy (BooleanValue b) = b"
| "isTruthy (NumberValue (ParseInt t)) = parseIntIsTruthy t"
| "isTruthy (StimulusValue e) = True"
| "isTruthy ObjectPrototype = True"
| "isTruthy (BuiltinFunction name) = True"

definition getStimulusByIdentifier :: "Parser \<Rightarrow> string \<Rightarrow> error + jsValue" where
  "getStimulusByIdentifier this stimulusIdentifier =
     (let found = readStimulus this stimulusIdentifier
      in if isTruthy found then Inr found
         else Inl (UnknownStimulusIdentifier stimulusIdentifier))"

text \<open>
  In the earlier revision (\<^verbatim>\<open>src/unnamed/part_000\<close>) the method returns the
  property without a test, \<^verbatim>\<open>undefined\<close> when there is none.
\<close>

definition getStimulusByIdentifier_v1 :: "Parser \<Rightarrow> string \<Rightarrow> jsValue" where
  "getStimulusByIdentifier_v1 this stimulusIdentifier = readStimulus this stimulusIdentifier"

text \<open>
  \<^verbatim>\<open>ids.map((identifier) => this.getStimulusByIdentifier(identifier))\<close>: the
  first identifier that is not found throws.
\<close>

fun resolveChoices :: "Parser \<Rightarrow> string list \<Rightarrow> error + jsValue list" where
  "resolveChoices this [] = Inr []"
| "resolveChoices this (stimulusIdentifier # rest) =
     (case getStimulusByIdentifier this stimulusIdentifier of
        Inl e \<Rightarrow> Inl e
      | Inr found \<Rightarrow>
          (case resolveChoices this rest of
             Inl e \<Rightarrow> Inl e
           | Inr others \<Rightarrow> Inr (found # others)))"

text \<open>
  \<^verbatim>\<open>choices === "n" ? choices : choices.split(",").map(...)\<close>; the method call
  on \<^verbatim>\<open>undefined\<close> (a line of fewer than four tokens) is a \<^verbatim>\<open>TypeError\<close>.
\<close>

definition choicesOf :: "Parser \<Rightarrow> token \<Rightarrow> error + choicesValue" where
  "choicesOf this t =
     (case t of
        None \<Rightarrow> Inl TypeError
      | Some c \<Rightarrow>
          if c = ''n'' then Inr (ChoicesSentinel c)
          else (case resolveChoices this (js_split c CHR 0x2C) of
                  Inl e \<Rightarrow> Inl e
                | Inr found \<Rightarrow> Inr (ChoiceList found)))"

text \<open>\<^verbatim>\<open>t === "inf" || t === "n" ? t : +t\<close>.\<close>

definition sentinelOrNumber :: "token \<Rightarrow> numberOrSentinel" where
  "sentinelOrNumber t =
     (case t of
        None \<Rightarrow> Numeric (ToNumber t)
      | Some s \<Rightarrow> if s = ''inf'' \<or> s = ''n'' then Sentinel s else Numeric (ToNumber t))"

text \<open>
  The \<^verbatim>\<open>switch (feedbackType)\<close>: the case \<^verbatim>\<open>"a"\<close> attaches \<^verbatim>\<open>feedback1\<close> and
  falls through to the case \<^verbatim>\<open>"tf"\<close>, which attaches \<^verbatim>\<open>feedback2\<close> and breaks.
\<close>

definition attachFeedback :: "token \<Rightarrow> token \<Rightarrow> Sequence \<Rightarrow> error + Sequence" where
  "attachFeedback t1 t2 sequence =
     (let sequence1 =
            (if feedbackType sequence = Some ''a''
             then sequence\<lparr> feedback1 := Present t1 \<rparr> else sequence)
      in if feedbackType sequence = Some ''a'' \<or> feedbackType sequence = Some ''tf''
         then Inr (sequence1\<lparr> feedback2 := Present t2 \<rparr>)
         else if feedbackType sequence = Some ''n'' \<or> feedbackType sequence = Some ''c''
         then Inr sequence1
         else Inl (InvalidFeedbackType (feedbackType sequence)))"

text \<open>
  The object literal of the inner loop of \<^verbatim>\<open>parseSequence\<close>, given the split
  line and the value of its \<^verbatim>\<open>choices\<close> property.
\<close>

definition sequenceLiteral :: "string list \<Rightarrow> choicesValue \<Rightarrow> Sequence" where
  "sequenceLiteral splittedInstruction resolved =
     \<lparr> onSetTime = ToNumber (element splittedInstruction 0),
       identifier' = element splittedInstruction 1,
       stimulusDuration = sentinelOrNumber (element splittedInstruction 2),
       choices = resolved,
       choiceDuration = sentinelOrNumber (element splittedInstruction 4),
       answer = element splittedInstruction 5,
       choiceOnsetRelativeToSim = sentinelOrNumber (element splittedInstruction 6),
       reactionTime = sentinelOrNumber (element splittedInstruction 7),
       feedbackType = element splittedInstruction 8,
       feedbackDuration = sentinelOrNumber (element splittedInstruction 9),
       test = element splittedInstruction 12,
       feedback1 = Absent,
       feedback2 = Absent \<rparr>"

text \<open>
  The body of the inner loop of \<^verbatim>\<open>parseSequence\<close>: the object literal (whose
  \<^verbatim>\<open>choices\<close> property may throw), then the \<^verbatim>\<open>switch\<close>.
\<close>

definition sequenceOfInstruction :: "Parser \<Rightarrow> string \<Rightarrow> error + Sequence" where
  "sequenceOfInstruction this instruction =
     (let splittedInstruction = js_split instruction CHR 0x20
      in case choicesOf this (element splittedInstruction 3) of
           Inl e \<Rightarrow> Inl e
         | Inr resolved \<Rightarrow>
             attachFeedback (element splittedInstruction 10) (element splittedInstruction 11)
               (sequenceLiteral splittedInstruction resolved))"

fun parseSequenceLoop :: "Parser \<Rightarrow> string list \<Rightarrow> Sequence list \<Rightarrow> error + Sequence list" where
  "parseSequenceLoop this [] buffer = Inr buffer"
| "parseSequenceLoop this (instruction # rest) buffer =
     (case sequenceOfInstruction this instruction of
        Inl e \<Rightarrow> Inl e
      | Inr sequence \<Rightarrow> parseSequenceLoop this rest (buffer @ [sequence]))"


subsection \<open>The whole run\<close>




subsection \<open>Sample inputs\<close>

text \<open>
  Parser states and a script on which the theorems below are instantiated: a
  catalog with one image, a stimulus section with two lines for one
  identifier, one with an unsupported type tag, one with the identifier
  \<^verbatim>\<open>__proto__\<close>, and a script with its four sections.
\<close>

definition I1_entity :: Stimulus where
  "I1_entity = \<lparr> stimulusType = Some ''image'', filePath = Present (Some ''img/3.png''),
           button = Present True, content = Absent, fontSize = Absent, fontColor = Absent \<rparr>"

definition catalog_parser :: Parser where
  "catalog_parser = (new_Parser [])\<lparr> stimulus := [''I1'' \<mapsto> I1_entity] \<rparr>"

definition two_lines_parser :: Parser where
  "two_lines_parser =
     (new_Parser [])\<lparr> stimulusInstructions := [''image I1 a.png true'', ''text_file I1 b.txt n red''] \<rparr>"

definition bad_line_parser :: Parser where
  "bad_line_parser =
     (new_Parser [])\<lparr> stimulusInstructions := [''image I1 a.png true'', ''instruction X1 foo''] \<rparr>"

definition proto_line_parser :: Parser where
  "proto_line_parser =
     (new_Parser [])\<lparr> stimulusInstructions := [''image __proto__ a.png true''] \<rparr>"


section \<open>Properties\<close>

text \<open>The definitions that evaluate a line on a concrete input.\<close>

lemmas eval_defs = sequenceOfInstruction_def choicesOf_def attachFeedback_def sequenceLiteral_def
  element_def Let_def getStimulusByIdentifier_def stimulusOfInstruction_def
  stimulusTypeOfInstruction_def identifierOfInstruction_def splitWithEscapedCharacter_def
  propertyKey_def parseStimulus_def truthy_def fontSizeOf_def fontColorOf_def sentinelOrNumber_def
  readStimulus_def assignStimulus_def objectPrototypeMethods_def

subsection \<open>Section extraction\<close>

lemma markers_differ: "startMarker keyword \<noteq> endMarker keyword"
proof
  assume "startMarker keyword = endMarker keyword"
  then have "length (startMarker keyword) = length (endMarker keyword)" by simp
  then show False by (simp add: startMarker_def endMarker_def)
qed

lemma sectionScan_no_end:
  "endMarker keyword \<notin> set xs \<Longrightarrow> snd (sectionScan keyword xs i s e) = e"
  by (induction xs arbitrary: i s) auto

lemma sectionScan_no_start:
  "startMarker keyword \<notin> set xs \<Longrightarrow> fst (sectionScan keyword xs i s e) = s"
  by (induction xs arbitrary: i) auto

lemma sectionScan_body:
  "endMarker keyword \<notin> set r \<Longrightarrow> startMarker keyword \<notin> set r \<Longrightarrow>
   sectionScan keyword (r @ endMarker keyword # post) i s e = (s, Some (i + length r))"
  by (induction r arbitrary: i) (auto simp: markers_differ [symmetric])

lemma sectionScan_prefix:
  "endMarker keyword \<notin> set pre \<Longrightarrow>
   sectionScan keyword (pre @ startMarker keyword # rest) i s e =
   sectionScan keyword rest (Suc (i + length pre)) (Some (i + length pre)) e"
  by (induction pre arbitrary: i s) auto

lemma slice_between:
  "slice (Suc (length pre)) (Suc (length pre + length r)) (pre @ a # r @ b # post) = r"
  by (simp add: slice_def)

lemma extract_decomposed:
  assumes "endMarker keyword \<notin> set pre" "endMarker keyword \<notin> set r"
    "startMarker keyword \<notin> set r"
  shows "extractInstructionsFromSection keyword
           (pre @ startMarker keyword # r @ endMarker keyword # post) = Inr r"
  using assms
  by (simp add: extractInstructionsFromSection_def sectionScan_prefix sectionScan_body
      slice_between)

lemma extract_missing:
  assumes "startMarker keyword \<notin> set xs \<or> endMarker keyword \<notin> set xs"
  shows "extractInstructionsFromSection keyword xs = Inl (SectionNotFound keyword)"
proof -
  obtain s e where se: "sectionScan keyword xs 0 None None = (s, e)"
    by (cases "sectionScan keyword xs 0 None None")
  from assms have "s = None \<or> e = None"
    using sectionScan_no_start [of keyword xs 0 None None]
      sectionScan_no_end [of keyword xs 0 None None] se by auto
  then show ?thesis
    by (auto simp: extractInstructionsFromSection_def se split: option.splits)
qed

lemma extract_success_decomposes:
  assumes ok: "extractInstructionsFromSection keyword xs = Inr r"
  shows "\<exists>pre post. xs = pre @ [startMarker keyword] @ r @ [endMarker keyword] @ post \<and>
      endMarker keyword \<notin> set pre \<and> endMarker keyword \<notin> set r \<and>
      startMarker keyword \<notin> set r"
proof -
  have "endMarker keyword \<in> set xs"
    using ok extract_missing [of keyword xs] by auto
  then obtain ys post where xs: "xs = ys @ endMarker keyword # post"
    and ys: "endMarker keyword \<notin> set ys"
    by (auto dest: split_list_first)
  have "startMarker keyword \<in> set ys"
  proof (rule ccontr)
    assume no: "startMarker keyword \<notin> set ys"
    have "sectionScan keyword xs 0 None None = (None, Some (length ys))"
      unfolding xs using sectionScan_body [OF ys no, of post 0 None None] by simp
    then show False using ok by (simp add: extractInstructionsFromSection_def)
  qed
  then obtain pre r' where ys_eq: "ys = pre @ startMarker keyword # r'"
    and r': "startMarker keyword \<notin> set r'"
    by (auto dest: split_list_last)
  from ys ys_eq have p: "endMarker keyword \<notin> set pre" and q: "endMarker keyword \<notin> set r'"
    by auto
  have "extractInstructionsFromSection keyword xs = Inr r'"
    unfolding xs ys_eq using extract_decomposed [OF p q r', of post] by simp
  with ok have "r' = r" by simp
  with xs ys_eq p q r' show ?thesis by auto
qed

text \<open>
  Claim C3, as stated: the start boundary is the first index whose line equals
  the start marker, and the end boundary the first end marker met after a
  start marker. The code overwrites the start index at every start marker it
  meets before the first end marker, so with two start markers the section
  begins after the second one, where the specification's reading begins after
  the first. And the code stops at the first end marker of the list also when
  no start marker came before it, and then fails, where the specification's
  reading goes on to the end marker that follows the start marker.
\<close>

theorem C3_first_start_counterexample:
  "extractInstructionsFromSection ''K'' [''[K]'', ''a'', ''[K]'', ''b'', ''[EndK]'']
     = Inr [''b'']
   \<and> spec_extract ''K'' [''[K]'', ''a'', ''[K]'', ''b'', ''[EndK]'']
     = Inr [''a'', ''[K]'', ''b'']
   \<and> extractInstructionsFromSection ''K'' [''[EndK]'', ''[K]'', ''x'', ''[EndK]'']
     = Inl (SectionNotFound ''K'')
   \<and> spec_extract ''K'' [''[EndK]'', ''[K]'', ''x'', ''[EndK]''] = Inr [''x'']"
  by (simp add: extractInstructionsFromSection_def spec_extract_def startMarker_def
      endMarker_def slice_def)

text \<open>
  Claim C3, amended: extraction succeeds exactly when the list splits around
  the first end marker of the whole list and the last start marker before it,
  and it returns exactly the lines strictly between these two markers.
\<close>

theorem C3_extract_boundaries:
  "extractInstructionsFromSection keyword xs = Inr r \<longleftrightarrow>
   (\<exists>pre post. xs = pre @ [startMarker keyword] @ r @ [endMarker keyword] @ post \<and>
      endMarker keyword \<notin> set pre \<and> endMarker keyword \<notin> set r \<and>
      startMarker keyword \<notin> set r)"
  using extract_success_decomposes [of keyword xs r] extract_decomposed [of keyword _ r]
  by auto

theorem C3_extract_boundaries_witness:
  "extractInstructionsFromSection ''PreSeq'' [''[PreSeq]'', ''x'', ''[EndPreSeq]'']
     = Inr [''x'']"
proof -
  have "\<exists>pre post. [''[PreSeq]'', ''x'', ''[EndPreSeq]''] =
      pre @ [startMarker ''PreSeq''] @ [''x''] @ [endMarker ''PreSeq''] @ post \<and>
      endMarker ''PreSeq'' \<notin> set pre \<and> endMarker ''PreSeq'' \<notin> set [''x''] \<and>
      startMarker ''PreSeq'' \<notin> set [''x'']"
    by (rule exI [of _ "[]"], rule exI [of _ "[]"]) (simp add: startMarker_def endMarker_def)
  then show ?thesis
    using C3_extract_boundaries [of "''PreSeq''" "[''[PreSeq]'', ''x'', ''[EndPreSeq]'']" "[''x'']"]
    by blast
qed

text \<open>
  In version 2 a list without the start marker or without the end marker makes
  the extraction fail with the section-not-found error.
\<close>

lemma v2_missing_marker_fails:
  "startMarker keyword \<notin> set xs \<or> endMarker keyword \<notin> set xs \<Longrightarrow>
   extractInstructionsFromSection keyword xs = Inl (SectionNotFound keyword)"
  by (rule extract_missing)

lemma v2_missing_marker_fails_instance:
  "endMarker ''PreSeq'' \<notin> set [''[PreSeq]'', ''x'']
   \<and> extractInstructionsFromSection ''PreSeq'' [''[PreSeq]'', ''x'']
       = Inl (SectionNotFound ''PreSeq'')"
proof -
  have h: "endMarker ''PreSeq'' \<notin> set [''[PreSeq]'', ''x'']"
    by (simp add: endMarker_def)
  show ?thesis
    using h v2_missing_marker_fails [of "''PreSeq''" "[''[PreSeq]'', ''x'']"] by blast
qed

text \<open>
  Claim C5: when the start marker or the end marker does not occur in the
  instruction list, extraction is to fail with the section-not-found error.
  Version 2 does so (lemma \<open>v2_missing_marker_fails\<close>). The earlier revision
  does not when only the start marker is missing: it returns the lines before
  the end marker, on the list on which version 2 fails.
\<close>

theorem C5_v1_missing_start_not_rejected:
  "startMarker ''PreSeq'' \<notin> set [''x'', ''[EndPreSeq]'']
   \<and> extractInstructionsFromSection_v1 ''PreSeq'' [''x'', ''[EndPreSeq]''] = Inr [''x'']
   \<and> extractInstructionsFromSection ''PreSeq'' [''x'', ''[EndPreSeq]'']
       = Inl (SectionNotFound ''PreSeq'')"
  by (simp add: extractInstructionsFromSection_v1_def extractInstructionsFromSection_def
      startMarker_def endMarker_def slice_def)

text \<open>The earlier revision still fails when the end marker is missing.\<close>

lemma extract_v1_missing_end:
  "endMarker keyword \<notin> set xs \<Longrightarrow>
   extractInstructionsFromSection_v1 keyword xs = Inl (SectionNotFound keyword)"
proof -
  assume "endMarker keyword \<notin> set xs"
  then have "snd (sectionScan keyword xs 0 None None) = None"
    by (rule sectionScan_no_end)
  then show ?thesis
    by (cases "sectionScan keyword xs 0 None None")
      (simp add: extractInstructionsFromSection_v1_def split: option.splits)
qed

subsection \<open>Tokenizer\<close>

lemma splitLoop_no_quote:
  "pairChar \<notin> set wordBuffer \<Longrightarrow> (\<forall>t \<in> set resultArray. pairChar \<notin> set t) \<Longrightarrow>
   (\<forall>t \<in> set (splitLoop splitChar pairChar cs isPairOpen resultArray wordBuffer).
      pairChar \<notin> set t)"
proof (induction cs arbitrary: isPairOpen resultArray wordBuffer)
  case Nil
  then show ?case by simp
next
  case (Cons c cs)
  show ?case
  proof (cases "c = pairChar")
    case True
    then show ?thesis using Cons.IH [OF Cons.prems] by simp
  next
    case False
    have buf: "pairChar \<notin> set (wordBuffer @ [c])"
      using False Cons.prems(1) by auto
    have res: "\<forall>t \<in> set (resultArray @ [wordBuffer]). pairChar \<notin> set t"
      using Cons.prems by auto
    have empty: "pairChar \<notin> set []" by simp
    show ?thesis
      using False Cons.IH [OF buf Cons.prems(2)] Cons.IH [OF empty res]
      by simp
  qed
qed

lemma splitLoop_plain:
  "splitChar \<notin> set a \<Longrightarrow> pairChar \<notin> set a \<Longrightarrow>
   splitLoop splitChar pairChar (a @ rest) isPairOpen resultArray wordBuffer =
   splitLoop splitChar pairChar rest isPairOpen resultArray (wordBuffer @ a)"
  by (induction a arbitrary: wordBuffer) auto

lemma splitLoop_quoted:
  "pairChar \<notin> set mid \<Longrightarrow>
   splitLoop splitChar pairChar (mid @ rest) True resultArray wordBuffer =
   splitLoop splitChar pairChar rest True resultArray (wordBuffer @ mid)"
  by (induction mid arbitrary: wordBuffer) auto

lemma split_unquoted_word:
  assumes "splitChar \<noteq> pairChar" "splitChar \<notin> set text" "pairChar \<notin> set text"
  shows "splitWithEscapedCharacter text splitChar pairChar = [text]"
  using assms by (simp add: splitWithEscapedCharacter_def splitLoop_plain)

lemma split_quoted_span:
  assumes "splitChar \<noteq> pairChar"
    and "pairChar \<notin> set a" "pairChar \<notin> set mid" "pairChar \<notin> set b"
    and "splitChar \<notin> set a" "splitChar \<notin> set b"
  shows "splitWithEscapedCharacter (a @ [pairChar] @ mid @ [pairChar] @ b) splitChar pairChar
         = [a @ mid @ b]"
proof -
  have "splitLoop splitChar pairChar (a @ pairChar # mid @ pairChar # b @ [splitChar]) False [] []
      = splitLoop splitChar pairChar (pairChar # mid @ pairChar # b @ [splitChar]) False [] a"
    using assms splitLoop_plain [of splitChar a pairChar _ False "[]" "[]"] by simp
  also have "\<dots> = splitLoop splitChar pairChar (mid @ pairChar # b @ [splitChar]) True [] a"
    by simp
  also have "\<dots> = splitLoop splitChar pairChar (pairChar # b @ [splitChar]) True [] (a @ mid)"
    using assms by (simp add: splitLoop_quoted)
  also have "\<dots> = splitLoop splitChar pairChar (b @ [splitChar]) False [] (a @ mid)"
    by simp
  also have "\<dots> = splitLoop splitChar pairChar [splitChar] False [] (a @ mid @ b)"
    using assms by (simp add: splitLoop_plain)
  also have "\<dots> = [a @ mid @ b]"
    using assms by simp
  finally show ?thesis by (simp add: splitWithEscapedCharacter_def)
qed

lemma js_split_nonempty: "js_split text sep \<noteq> []"
  by (induction "text") (auto split: list.splits)

lemma splitLoop_js_split:
  "pairChar \<notin> set text \<Longrightarrow> splitChar \<noteq> pairChar \<Longrightarrow>
   splitLoop splitChar pairChar (text @ [splitChar]) False resultArray wordBuffer =
   resultArray @ (wordBuffer @ hd (js_split text splitChar)) # tl (js_split text splitChar)"
proof (induction "text" arbitrary: resultArray wordBuffer)
  case Nil
  then show ?case by simp
next
  case (Cons c cs)
  obtain w ws where J: "js_split cs splitChar = w # ws"
    using js_split_nonempty [of cs splitChar] by (cases "js_split cs splitChar") auto
  from Cons.prems have c: "c \<noteq> pairChar" and cs: "pairChar \<notin> set cs" by auto
  show ?case
  proof (cases "c = splitChar")
    case True
    then show ?thesis using Cons.IH [OF cs Cons.prems(2)] c J by simp
  next
    case False
    then show ?thesis using Cons.IH [OF cs Cons.prems(2)] c J by simp
  qed
qed

lemma split_eq_js_split:
  "pairChar \<notin> set text \<Longrightarrow> splitChar \<noteq> pairChar \<Longrightarrow>
   splitWithEscapedCharacter text splitChar pairChar = js_split text splitChar"
  using splitLoop_js_split [of pairChar "text" splitChar "[]" "[]"] js_split_nonempty [of "text" splitChar]
  by (simp add: splitWithEscapedCharacter_def)

lemma splitLoop_closing_delimiter:
  "splitChar \<noteq> pairChar \<Longrightarrow> isPairOpen = odd (count_list xs pairChar) \<Longrightarrow>
   splitLoop splitChar pairChar (xs @ splitChar # ys) isPairOpen resultArray wordBuffer =
   splitLoop splitChar pairChar ys False
     (splitLoop splitChar pairChar (xs @ [splitChar]) isPairOpen resultArray wordBuffer) []"
  by (induction xs arbitrary: isPairOpen resultArray wordBuffer) auto

lemma split_last_word:
  assumes "splitChar \<noteq> pairChar" "even (count_list pre pairChar)"
    and "splitChar \<notin> set w" "pairChar \<notin> set w"
  shows "splitWithEscapedCharacter (pre @ [splitChar] @ w) splitChar pairChar
         = splitWithEscapedCharacter pre splitChar pairChar @ [w]"
proof -
  have "splitLoop splitChar pairChar (pre @ splitChar # (w @ [splitChar])) False [] []
      = splitLoop splitChar pairChar (w @ [splitChar]) False
          (splitLoop splitChar pairChar (pre @ [splitChar]) False [] []) []"
    using assms(1,2)
      splitLoop_closing_delimiter [where splitChar = splitChar and pairChar = pairChar
        and isPairOpen = False and xs = pre and ys = "w @ [splitChar]"
        and resultArray = "[]" and wordBuffer = "[]"]
    by simp
  also have "\<dots> = splitLoop splitChar pairChar [splitChar] False
          (splitLoop splitChar pairChar (pre @ [splitChar]) False [] []) w"
    using assms(3,4) by (simp add: splitLoop_plain)
  also have "\<dots> = splitLoop splitChar pairChar (pre @ [splitChar]) False [] [] @ [w]"
    using assms(1) by simp
  finally show ?thesis by (simp add: splitWithEscapedCharacter_def)
qed

lemma splitLoop_accumulate:
  "splitLoop splitChar pairChar xs isPairOpen (r @ resultArray) wordBuffer
   = r @ splitLoop splitChar pairChar xs isPairOpen resultArray wordBuffer"
  by (induction xs arbitrary: isPairOpen resultArray wordBuffer) auto

lemma splitLoop_buffer:
  "splitLoop splitChar pairChar xs isPairOpen [] (b @ wordBuffer)
   = (case splitLoop splitChar pairChar xs isPairOpen [] wordBuffer of
        [] \<Rightarrow> []
      | w # ws \<Rightarrow> (b @ w) # ws)"
proof (induction xs arbitrary: isPairOpen wordBuffer)
  case Nil
  then show ?case by simp
next
  case (Cons c cs)
  have flush: "splitLoop splitChar pairChar cs False [v] []
      = v # splitLoop splitChar pairChar cs False [] []" for v
    using splitLoop_accumulate [of splitChar pairChar cs False "[v]" "[]" "[]"] by simp
  show ?case
  proof (cases "c = pairChar")
    case True
    then show ?thesis using Cons.IH by simp
  next
    case False
    show ?thesis
    proof (cases "c = splitChar \<and> \<not> isPairOpen")
      case True
      then show ?thesis using False by (simp add: flush)
    next
      case no: False
      then show ?thesis using False Cons.IH [of isPairOpen "wordBuffer @ [c]"] by auto
    qed
  qed
qed

lemma split_empty:
  "splitChar \<noteq> pairChar \<Longrightarrow> splitWithEscapedCharacter [] splitChar pairChar = [[]]"
  by (simp add: splitWithEscapedCharacter_def)

lemma split_plain_char:
  assumes "c \<noteq> splitChar" "c \<noteq> pairChar"
  shows "splitWithEscapedCharacter (c # rest) splitChar pairChar
     = (case splitWithEscapedCharacter rest splitChar pairChar of
          [] \<Rightarrow> []
        | w # ws \<Rightarrow> (c # w) # ws)"
  using assms splitLoop_buffer [of splitChar pairChar "rest @ [splitChar]" False "[c]" "[]"]
  by (simp add: splitWithEscapedCharacter_def split: list.splits)

lemma split_delimiter:
  assumes "splitChar \<noteq> pairChar"
  shows "splitWithEscapedCharacter (splitChar # rest) splitChar pairChar
     = [] # splitWithEscapedCharacter rest splitChar pairChar"
  using assms splitLoop_accumulate [of splitChar pairChar "rest @ [splitChar]" False "[[]]" "[]" "[]"]
  by (simp add: splitWithEscapedCharacter_def)

lemma split_quoted_prefix:
  assumes "splitChar \<noteq> pairChar" "pairChar \<notin> set mid"
  shows "splitWithEscapedCharacter (pairChar # mid @ pairChar # rest) splitChar pairChar
     = (case splitWithEscapedCharacter rest splitChar pairChar of
          [] \<Rightarrow> []
        | w # ws \<Rightarrow> (mid @ w) # ws)"
proof -
  have "splitLoop splitChar pairChar (mid @ pairChar # rest @ [splitChar]) True [] []
      = splitLoop splitChar pairChar (pairChar # rest @ [splitChar]) True [] mid"
    using assms(2) splitLoop_quoted [of pairChar mid splitChar "pairChar # rest @ [splitChar]" "[]" "[]"]
    by simp
  then show ?thesis
    using splitLoop_buffer [of splitChar pairChar "rest @ [splitChar]" False mid "[]"]
    by (simp add: splitWithEscapedCharacter_def)
qed

lemma split_unclosed_quote:
  assumes "splitChar \<noteq> pairChar" "pairChar \<notin> set mid"
  shows "splitWithEscapedCharacter (pairChar # mid) splitChar pairChar = []"
  using assms splitLoop_quoted [of pairChar "mid @ [splitChar]" splitChar "[]" "[]" "[]"]
  by (simp add: splitWithEscapedCharacter_def)

lemma split_at_delimiter:
  assumes "splitChar \<noteq> pairChar" "even (count_list pre pairChar)"
  shows "splitWithEscapedCharacter (pre @ [splitChar] @ post) splitChar pairChar
         = splitWithEscapedCharacter pre splitChar pairChar
           @ splitWithEscapedCharacter post splitChar pairChar"
proof -
  have "splitLoop splitChar pairChar (pre @ splitChar # (post @ [splitChar])) False [] []
      = splitLoop splitChar pairChar (post @ [splitChar]) False
          (splitLoop splitChar pairChar (pre @ [splitChar]) False [] []) []"
    using assms
      splitLoop_closing_delimiter [where splitChar = splitChar and pairChar = pairChar
        and isPairOpen = False and xs = pre and ys = "post @ [splitChar]"
        and resultArray = "[]" and wordBuffer = "[]"]
    by simp
  also have "\<dots> = splitLoop splitChar pairChar (pre @ [splitChar]) False [] []
      @ splitLoop splitChar pairChar (post @ [splitChar]) False [] []"
    using splitLoop_accumulate [of splitChar pairChar "post @ [splitChar]" False
        "splitLoop splitChar pairChar (pre @ [splitChar]) False [] []" "[]" "[]"]
    by simp
  finally show ?thesis by (simp add: splitWithEscapedCharacter_def)
qed

text \<open>
  Claim C6: the tokenizer scans the text with one delimiter appended, so that
  the last word is flushed as the final token when no quoted span is left
  open; no token contains the quote character; while the toggle is open the
  loop takes every character but the quote, delimiters included, into the
  current token and flushes nothing. For a delimiter and a quote that differ,
  the result is given for every text by its first character: an ordinary
  character joins the first token of the rest, a delimiter outside quotes
  ends a token, a quoted span joins the first token of what follows its
  closing quote, and a quote that is never closed leaves no token at all. The
  examples of the specification evaluate as stated, as does a line with two
  quoted spans.
\<close>

theorem C6_tokenizer:
  \<open>splitWithEscapedCharacter line splitChar pairChar
     = splitLoop splitChar pairChar (line @ [splitChar]) False [] []
   \<and> (\<forall>t \<in> set (splitWithEscapedCharacter line splitChar pairChar). pairChar \<notin> set t)
   \<and> (splitChar \<noteq> pairChar \<and> splitChar \<notin> set line \<and> pairChar \<notin> set line
        \<longrightarrow> splitWithEscapedCharacter line splitChar pairChar = [line])
   \<and> (splitChar \<noteq> pairChar \<and> even (count_list pre pairChar)
        \<and> splitChar \<notin> set w \<and> pairChar \<notin> set w
        \<longrightarrow> splitWithEscapedCharacter (pre @ [splitChar] @ w) splitChar pairChar
            = splitWithEscapedCharacter pre splitChar pairChar @ [w])
   \<and> (splitChar \<noteq> pairChar \<and> pairChar \<notin> set a \<union> set mid \<union> set b
        \<and> splitChar \<notin> set a \<union> set b
        \<longrightarrow> splitWithEscapedCharacter (a @ [pairChar] @ mid @ [pairChar] @ b) splitChar pairChar
            = [a @ mid @ b])
   \<and> (pairChar \<notin> set mid
        \<longrightarrow> splitLoop splitChar pairChar (mid @ rest) True resultArray wordBuffer
            = splitLoop splitChar pairChar rest True resultArray (wordBuffer @ mid))
   \<and> (splitChar \<noteq> pairChar
        \<longrightarrow> splitWithEscapedCharacter [] splitChar pairChar = [[]])
   \<and> (splitChar \<noteq> pairChar \<and> c \<noteq> splitChar \<and> c \<noteq> pairChar
        \<longrightarrow> splitWithEscapedCharacter (c # rest) splitChar pairChar
            = (case splitWithEscapedCharacter rest splitChar pairChar of
                 [] \<Rightarrow> []
               | t # ts \<Rightarrow> (c # t) # ts))
   \<and> (splitChar \<noteq> pairChar
        \<longrightarrow> splitWithEscapedCharacter (splitChar # rest) splitChar pairChar
            = [] # splitWithEscapedCharacter rest splitChar pairChar)
   \<and> (splitChar \<noteq> pairChar \<and> pairChar \<notin> set mid
        \<longrightarrow> splitWithEscapedCharacter (pairChar # mid @ pairChar # rest) splitChar pairChar
            = (case splitWithEscapedCharacter rest splitChar pairChar of
                 [] \<Rightarrow> []
               | t # ts \<Rightarrow> (mid @ t) # ts))
   \<and> (splitChar \<noteq> pairChar \<and> pairChar \<notin> set mid
        \<longrightarrow> splitWithEscapedCharacter (pairChar # mid) splitChar pairChar = [])
   \<and> (splitChar \<noteq> pairChar \<and> even (count_list pre pairChar)
        \<longrightarrow> splitWithEscapedCharacter (pre @ [splitChar] @ post) splitChar pairChar
            = splitWithEscapedCharacter pre splitChar pairChar
              @ splitWithEscapedCharacter post splitChar pairChar)
   \<and> splitWithEscapedCharacter ''a "b c" d'' CHR '' '' CHR ''"'' = [''a'', ''b c'', ''d'']
   \<and> splitWithEscapedCharacter ''x'' CHR '' '' CHR ''"'' = [''x'']
   \<and> splitWithEscapedCharacter ''"a b" "c d"'' CHR '' '' CHR ''"'' = [''a b'', ''c d'']\<close>
proof -
  have "\<forall>t \<in> set (splitWithEscapedCharacter line splitChar pairChar). pairChar \<notin> set t"
    unfolding splitWithEscapedCharacter_def
    by (rule splitLoop_no_quote) simp_all
  moreover have \<open>splitWithEscapedCharacter ''a "b c" d'' CHR '' '' CHR ''"'' = [''a'', ''b c'', ''d'']\<close>
    by (simp add: splitWithEscapedCharacter_def)
  moreover have \<open>splitWithEscapedCharacter ''x'' CHR '' '' CHR ''"'' = [''x'']\<close>
    by (simp add: splitWithEscapedCharacter_def)
  moreover have \<open>splitWithEscapedCharacter ''"a b" "c d"'' CHR '' '' CHR ''"'' = [''a b'', ''c d'']\<close>
    by (simp add: splitWithEscapedCharacter_def)
  moreover have "pairChar \<notin> set mid
        \<longrightarrow> splitLoop splitChar pairChar (mid @ rest) True resultArray wordBuffer
            = splitLoop splitChar pairChar rest True resultArray (wordBuffer @ mid)"
    by (simp add: splitLoop_quoted)
  moreover have "splitChar \<noteq> pairChar \<and> c \<noteq> splitChar \<and> c \<noteq> pairChar
        \<longrightarrow> splitWithEscapedCharacter (c # rest) splitChar pairChar
            = (case splitWithEscapedCharacter rest splitChar pairChar of
                 [] \<Rightarrow> []
               | t # ts \<Rightarrow> (c # t) # ts)"
    using split_plain_char [of c splitChar pairChar rest] by blast
  moreover have "splitChar \<noteq> pairChar \<and> pairChar \<notin> set mid
        \<longrightarrow> splitWithEscapedCharacter (pairChar # mid @ pairChar # rest) splitChar pairChar
            = (case splitWithEscapedCharacter rest splitChar pairChar of
                 [] \<Rightarrow> []
               | t # ts \<Rightarrow> (mid @ t) # ts)"
    using split_quoted_prefix [of splitChar pairChar mid rest] by blast
  moreover have "splitChar \<noteq> pairChar \<and> even (count_list pre pairChar)
        \<longrightarrow> splitWithEscapedCharacter (pre @ [splitChar] @ post) splitChar pairChar
            = splitWithEscapedCharacter pre splitChar pairChar
              @ splitWithEscapedCharacter post splitChar pairChar"
    using split_at_delimiter [of splitChar pairChar pre post] by blast
  moreover have "splitChar \<noteq> pairChar \<and> even (count_list pre pairChar)
        \<and> splitChar \<notin> set w \<and> pairChar \<notin> set w
        \<longrightarrow> splitWithEscapedCharacter (pre @ [splitChar] @ w) splitChar pairChar
            = splitWithEscapedCharacter pre splitChar pairChar @ [w]"
    using split_last_word [of splitChar pairChar pre w] by blast
  moreover have "splitChar \<noteq> pairChar \<and> pairChar \<notin> set a \<union> set mid \<union> set b
        \<and> splitChar \<notin> set a \<union> set b
        \<longrightarrow> splitWithEscapedCharacter (a @ [pairChar] @ mid @ [pairChar] @ b) splitChar pairChar
            = [a @ mid @ b]"
    using split_quoted_span [of splitChar pairChar a mid b] by simp
  moreover have "splitChar \<noteq> pairChar \<and> splitChar \<notin> set line \<and> pairChar \<notin> set line
        \<longrightarrow> splitWithEscapedCharacter line splitChar pairChar = [line]"
    using split_unquoted_word [of splitChar pairChar line] by blast
  moreover have "splitWithEscapedCharacter line splitChar pairChar
     = splitLoop splitChar pairChar (line @ [splitChar]) False [] []"
    by (simp add: splitWithEscapedCharacter_def)
  moreover have "splitChar \<noteq> pairChar
        \<longrightarrow> splitWithEscapedCharacter [] splitChar pairChar = [[]]"
    using split_empty [of splitChar pairChar] by blast
  moreover have "splitChar \<noteq> pairChar
        \<longrightarrow> splitWithEscapedCharacter (splitChar # rest) splitChar pairChar
            = [] # splitWithEscapedCharacter rest splitChar pairChar"
    using split_delimiter [of splitChar pairChar rest] by blast
  moreover have "splitChar \<noteq> pairChar \<and> pairChar \<notin> set mid
        \<longrightarrow> splitWithEscapedCharacter (pairChar # mid) splitChar pairChar = []"
    using split_unclosed_quote [of splitChar pairChar mid] by blast
  ultimately show ?thesis by blast
qed

theorem C6_tokenizer_witness:
  \<open>list_all (\<lambda>t. CHR ''"'' \<notin> set t) (splitWithEscapedCharacter ''a "b c" d'' CHR '' '' CHR ''"'')
   \<and> splitWithEscapedCharacter ''img/3.png'' CHR '' '' CHR ''"'' = [''img/3.png'']
   \<and> splitWithEscapedCharacter ''a "b c" d'' CHR '' '' CHR ''"''
       = splitWithEscapedCharacter ''a "b c"'' CHR '' '' CHR ''"'' @ [''d'']
   \<and> splitWithEscapedCharacter ''x"b c"y'' CHR '' '' CHR ''"'' = [''xb cy'']
   \<and> splitLoop CHR '' '' CHR ''"'' ''b c" d '' True [''a''] ''k''
       = splitLoop CHR '' '' CHR ''"'' ''" d '' True [''a''] ''kb c''
   \<and> splitWithEscapedCharacter [] CHR '' '' CHR ''"'' = [[]]
   \<and> splitWithEscapedCharacter ''a" d '' CHR '' '' CHR ''"'' = []
   \<and> splitWithEscapedCharacter '' " d '' CHR '' '' CHR ''"'' = [[]]
   \<and> splitWithEscapedCharacter ''"b c"" d '' CHR '' '' CHR ''"'' = []
   \<and> splitWithEscapedCharacter ''"b c'' CHR '' '' CHR ''"'' = []
   \<and> splitWithEscapedCharacter ''a "b c" "c d"'' CHR '' '' CHR ''"''
       = splitWithEscapedCharacter ''a "b c"'' CHR '' '' CHR ''"''
         @ splitWithEscapedCharacter ''"c d"'' CHR '' '' CHR ''"''\<close>
proof -
  note t1 = C6_tokenizer [where line = \<open>''a "b c" d''\<close> and splitChar = "CHR '' ''"
      and pairChar = \<open>CHR ''"''\<close> and pre = \<open>''a "b c"''\<close> and w = "''d''" and a = "''x''"
      and mid = "''b c''" and b = "''y''" and rest = \<open>''" d ''\<close>
      and resultArray = "[''a'']" and wordBuffer = "''k''" and c = "CHR ''a''"
      and post = \<open>''"c d"''\<close>]
  note t2 = C6_tokenizer [where line = "''img/3.png''" and splitChar = "CHR '' ''"
      and pairChar = \<open>CHR ''"''\<close> and pre = "[]" and w = "[]" and a = "[]"
      and mid = "[]" and b = "[]" and rest = "[]"
      and resultArray = "[]" and wordBuffer = "[]" and c = "CHR ''a''" and post = "[]"]
  show ?thesis using t1 t2 by (simp add: list_all_iff splitWithEscapedCharacter_def)
qed

text \<open>
  Claim C10: on a text without the quote character the tokenizer returns what
  plain splitting on the delimiter returns, empty tokens included (the
  delimiter and the quote being different characters); so the tokenization of
  stimulus lines and the splitting of sequence lines agree on such lines.
\<close>

theorem C10_quote_free_split:
  "pairChar \<notin> set text \<Longrightarrow> splitChar \<noteq> pairChar \<Longrightarrow>
   splitWithEscapedCharacter text splitChar pairChar = js_split text splitChar"
  by (rule split_eq_js_split)

theorem C10_quote_free_split_witness:
  "splitWithEscapedCharacter ''0 s1  100'' CHR 0x20 CHR 0x22 = [''0'', ''s1'', [], ''100'']
   \<and> js_split ''0 s1  100'' CHR 0x20 = [''0'', ''s1'', [], ''100'']"
  using C10_quote_free_split [of "CHR 0x22" "''0 s1  100''" "CHR 0x20"] by simp

text \<open>
  When the delimiter is also given as the quote character, the \<^verbatim>\<open>switch\<close>
  takes every delimiter for a quote and no token is ever flushed.
\<close>

lemma split_same_char_degenerate:
  "splitWithEscapedCharacter ''x'' CHR 0x20 CHR 0x20 = [] \<and> js_split ''x'' CHR 0x20 = [''x'']"
  by (simp add: splitWithEscapedCharacter_def)

subsection \<open>Stimulus decoding\<close>

lemma stimulusOfInstruction_unsupported:
  "stimulusTypeOfInstruction l \<notin> {Some ''image'', Some ''text'', Some ''text_file'', Some ''audio'', Some ''video''} \<Longrightarrow>
   stimulusOfInstruction l = Inl (InvalidStimulusType (stimulusTypeOfInstruction l))"
  by (simp add: stimulusOfInstruction_def stimulusTypeOfInstruction_def Let_def)

lemma stimulusOfInstruction_error:
  "stimulusOfInstruction l = Inl e \<Longrightarrow> e = InvalidStimulusType (stimulusTypeOfInstruction l)"
  by (simp add: stimulusOfInstruction_def stimulusTypeOfInstruction_def Let_def split: if_splits)

lemma parseStimulusLoop_error:
  "parseStimulusLoop ls this = Inl e \<Longrightarrow>
   \<exists>l \<in> set ls. e = InvalidStimulusType (stimulusTypeOfInstruction l)
      \<and> stimulusOfInstruction l = Inl e"
  by (induction ls arbitrary: this) (auto split: sum.splits dest: stimulusOfInstruction_error)

lemma parseStimulusLoop_fails:
  "l \<in> set ls \<Longrightarrow> stimulusOfInstruction l = Inl e \<Longrightarrow>
   \<exists>e'. parseStimulusLoop ls this = Inl e'"
  by (induction ls arbitrary: this) (auto split: sum.splits)

lemma audio_video_filePath:
  assumes "stimulusTypeOfInstruction l = Some ''audio'' \<or> stimulusTypeOfInstruction l = Some ''video''"
  shows "\<exists>s. stimulusOfInstruction l = Inr s \<and> filePath s = Present (stimulusTypeOfInstruction l)"
  using assms by (auto simp: stimulusOfInstruction_def stimulusTypeOfInstruction_def Let_def)

lemma text_file_filePath:
  assumes "stimulusTypeOfInstruction l = Some ''text_file''"
  shows "\<exists>s. stimulusOfInstruction l = Inr s \<and> filePath s = Present (element (splitWithEscapedCharacter l CHR 0x20 CHR 0x22) 2)"
  using assms by (auto simp: stimulusOfInstruction_def stimulusTypeOfInstruction_def Let_def element_def)

lemma filter_key_empty:
  "k \<notin> f ` set ls \<Longrightarrow> filter (\<lambda>l. f l = k) ls = []"
  by (induction ls) auto

lemma filter_key_nonempty:
  "k \<in> f ` set ls \<Longrightarrow> filter (\<lambda>l. f l = k) ls \<noteq> []"
  by (induction ls) auto


lemma assignStimulus_stimulus:
  "stimulus (assignStimulus this t s) =
     (if propertyKey t = ''__proto__'' then stimulus this
      else (stimulus this)(propertyKey t \<mapsto> s))"
  by (simp add: assignStimulus_def)

lemma assignStimulus_prototype:
  "stimulusPrototype (assignStimulus this t s) =
     (if propertyKey t = ''__proto__'' then Some s else stimulusPrototype this)"
  by (simp add: assignStimulus_def)


text \<open>
  Under every name but \<^verbatim>\<open>__proto__\<close> the last line wins: the own property of
  the catalog is the entity of the last line that carries the name.
\<close>

lemma parseStimulusLoop_lookup:
  "parseStimulusLoop ls this = Inr this' \<Longrightarrow> k \<noteq> ''__proto__'' \<Longrightarrow>
   (k \<in> (\<lambda>l. propertyKey (identifierOfInstruction l)) ` set ls \<longrightarrow>
      (\<exists>s. stimulusOfInstruction
              (last (filter (\<lambda>l. propertyKey (identifierOfInstruction l) = k) ls)) = Inr s
           \<and> stimulus this' k = Some s))
   \<and> (k \<notin> (\<lambda>l. propertyKey (identifierOfInstruction l)) ` set ls \<longrightarrow>
        stimulus this' k = stimulus this k)"
proof (induction ls arbitrary: this)
  case Nil
  then show ?case by simp
next
  case (Cons l ls)
  let ?key = "\<lambda>l. propertyKey (identifierOfInstruction l)"
  from Cons.prems obtain s0 where s0: "stimulusOfInstruction l = Inr s0"
    and rest: "parseStimulusLoop ls (assignStimulus this (identifierOfInstruction l) s0) = Inr this'"
    by (auto split: sum.splits)
  note IH = Cons.IH [OF rest Cons.prems(2)]
  show ?case
  proof (cases "k \<in> ?key ` set ls")
    case True
    then have "filter (\<lambda>l. ?key l = k) ls \<noteq> []"
      by (rule filter_key_nonempty)
    then have "last (filter (\<lambda>l. ?key l = k) (l # ls)) = last (filter (\<lambda>l. ?key l = k) ls)"
      by simp
    with IH True show ?thesis by auto
  next
    case False
    then have empty: "filter (\<lambda>l. ?key l = k) ls = []"
      by (rule filter_key_empty)
    show ?thesis
    proof (cases "?key l = k")
      case True
      with IH False s0 empty Cons.prems(2) show ?thesis
        by (auto simp: assignStimulus_stimulus)
    next
      case False
      with IH \<open>k \<notin> ?key ` set ls\<close> show ?thesis
        by (auto simp: assignStimulus_stimulus)
    qed
  qed
qed

text \<open>
  The name \<^verbatim>\<open>__proto__\<close> never becomes an own property: the entity of the
  last line that carries it becomes the prototype of the catalog.
\<close>

lemma parseStimulusLoop_proto_key:
  "parseStimulusLoop ls this = Inr this' \<Longrightarrow>
   stimulus this' ''__proto__'' = stimulus this ''__proto__''"
proof (induction ls arbitrary: this)
  case Nil
  then show ?case by simp
next
  case (Cons l ls)
  from Cons.prems obtain s0 where
    rest: "parseStimulusLoop ls (assignStimulus this (identifierOfInstruction l) s0) = Inr this'"
    by (auto split: sum.splits)
  from Cons.IH [OF rest] show ?case by (simp add: assignStimulus_stimulus)
qed

lemma parseStimulusLoop_prototype:
  "parseStimulusLoop ls this = Inr this' \<Longrightarrow>
   (''__proto__'' \<in> (\<lambda>l. propertyKey (identifierOfInstruction l)) ` set ls \<longrightarrow>
      (\<exists>s. stimulusOfInstruction
              (last (filter (\<lambda>l. propertyKey (identifierOfInstruction l) = ''__proto__'') ls))
              = Inr s
           \<and> stimulusPrototype this' = Some s))
   \<and> (''__proto__'' \<notin> (\<lambda>l. propertyKey (identifierOfInstruction l)) ` set ls \<longrightarrow>
        stimulusPrototype this' = stimulusPrototype this)"
proof (induction ls arbitrary: this)
  case Nil
  then show ?case by simp
next
  case (Cons l ls)
  let ?key = "\<lambda>l. propertyKey (identifierOfInstruction l)"
  from Cons.prems obtain s0 where s0: "stimulusOfInstruction l = Inr s0"
    and rest: "parseStimulusLoop ls (assignStimulus this (identifierOfInstruction l) s0) = Inr this'"
    by (auto split: sum.splits)
  note IH = Cons.IH [OF rest]
  show ?case
  proof (cases "''__proto__'' \<in> ?key ` set ls")
    case True
    then have "filter (\<lambda>l. ?key l = ''__proto__'') ls \<noteq> []"
      by (rule filter_key_nonempty)
    then have "last (filter (\<lambda>l. ?key l = ''__proto__'') (l # ls))
        = last (filter (\<lambda>l. ?key l = ''__proto__'') ls)"
      by simp
    with IH True show ?thesis by auto
  next
    case False
    then have empty: "filter (\<lambda>l. ?key l = ''__proto__'') ls = []"
      by (rule filter_key_empty)
    show ?thesis
    proof (cases "?key l = ''__proto__''")
      case True
      with IH False s0 empty show ?thesis
        by (auto simp: assignStimulus_prototype)
    next
      case False
      with IH \<open>''__proto__'' \<notin> ?key ` set ls\<close> show ?thesis
        by (auto simp: assignStimulus_prototype)
    qed
  qed
qed

lemma parseStimulusLoop_dom:
  "parseStimulusLoop ls this = Inr this' \<Longrightarrow>
   dom (stimulus this') =
     dom (stimulus this)
     \<union> ((\<lambda>l. propertyKey (identifierOfInstruction l)) ` set ls - {''__proto__''})"
proof (induction ls arbitrary: this)
  case Nil
  then show ?case by simp
next
  case (Cons l ls)
  from Cons.prems obtain s0 where
    rest: "parseStimulusLoop ls (assignStimulus this (identifierOfInstruction l) s0) = Inr this'"
    by (auto split: sum.splits)
  from Cons.IH [OF rest] show ?case
    by (auto simp: assignStimulus_stimulus split: if_splits)
qed

text \<open>
  Claim C1: for a line whose first token is \<^verbatim>\<open>audio\<close> or \<^verbatim>\<open>video\<close> the
  \<^verbatim>\<open>filePath\<close> of the entity should be the third token. The branch
  destructures the whole token array instead of \<^verbatim>\<open>left\<close>, so the field
  receives the first token, the type tag itself; the line
  \<^verbatim>\<open>audio A1 snd/a.mp3\<close> shows it.
\<close>

theorem C1_audio_filePath_is_type_tag:
  "stimulusOfInstruction ''audio A1 snd/a.mp3'' =
     Inr \<lparr> stimulusType = Some ''audio'', filePath = Present (Some ''audio''),
           button = Absent, content = Absent, fontSize = Absent, fontColor = Absent \<rparr>
   \<and> element (splitWithEscapedCharacter ''audio A1 snd/a.mp3'' CHR 0x20 CHR 0x22) 2
       = Some ''snd/a.mp3''"
  by (simp add: stimulusOfInstruction_def splitWithEscapedCharacter_def element_def Let_def)

text \<open>
  Claim C7: a stimulus line whose first token is none of \<^verbatim>\<open>image\<close>,
  \<^verbatim>\<open>text\<close>, \<^verbatim>\<open>text_file\<close>, \<^verbatim>\<open>audio\<close>, \<^verbatim>\<open>video\<close> (so also
  \<^verbatim>\<open>instruction\<close> and \<^verbatim>\<open>result\<close>) is rejected with the invalid-stimulus-type
  error, and a stimulus section that holds such a line makes \<^verbatim>\<open>parseStimulus\<close>
  fail with that kind of error, so that no catalog is returned.
\<close>

theorem C7_unsupported_type_rejected:
  assumes "stimulusTypeOfInstruction l \<notin>
     {Some ''image'', Some ''text'', Some ''text_file'', Some ''audio'', Some ''video''}"
  shows "stimulusOfInstruction l = Inl (InvalidStimulusType (stimulusTypeOfInstruction l))
     \<and> (l \<in> set (stimulusInstructions this) \<longrightarrow>
          (\<exists>t. parseStimulus this = Inl (InvalidStimulusType t)))"
proof (intro conjI impI)
  show 1: "stimulusOfInstruction l = Inl (InvalidStimulusType (stimulusTypeOfInstruction l))"
    using assms by (rule stimulusOfInstruction_unsupported)
  assume "l \<in> set (stimulusInstructions this)"
  then obtain e where "parseStimulusLoop (stimulusInstructions this) this = Inl e"
    using parseStimulusLoop_fails [OF _ 1] by blast
  then show "\<exists>t. parseStimulus this = Inl (InvalidStimulusType t)"
    using parseStimulusLoop_error by (fastforce simp: parseStimulus_def)
qed

theorem C7_unsupported_type_rejected_witness:
  "stimulusOfInstruction ''instruction X1 foo'' = Inl (InvalidStimulusType (Some ''instruction''))
   \<and> (\<exists>t. parseStimulus bad_line_parser = Inl (InvalidStimulusType t))"
proof -
  have ty: "stimulusTypeOfInstruction ''instruction X1 foo'' = Some ''instruction''"
    by (simp add: stimulusTypeOfInstruction_def splitWithEscapedCharacter_def element_def)
  have h: "stimulusTypeOfInstruction ''instruction X1 foo'' \<notin>
     {Some ''image'', Some ''text'', Some ''text_file'', Some ''audio'', Some ''video''}"
    by (simp add: ty)
  have mem: "''instruction X1 foo'' \<in> set (stimulusInstructions bad_line_parser)"
    by (simp add: bad_line_parser_def)
  from C7_unsupported_type_rejected [OF h, of bad_line_parser] mem ty
  show ?thesis by simp
qed

text \<open>
  After a successful \<^verbatim>\<open>parseStimulus\<close> the catalog maps the identifier of
  every line, when it is not \<^verbatim>\<open>__proto__\<close>, to the entity decoded from the
  last line that carries this identifier; its keys are the keys it had before
  together with the identifiers of the lines other than \<^verbatim>\<open>__proto__\<close>.
\<close>

lemma last_write_wins_for_ordinary_identifiers:
  assumes "parseStimulus this = Inr this'" and "l \<in> set (stimulusInstructions this)"
    and "propertyKey (identifierOfInstruction l) \<noteq> ''__proto__''"
  shows "(\<exists>s. stimulusOfInstruction
             (last (filter (\<lambda>l'. propertyKey (identifierOfInstruction l')
                                  = propertyKey (identifierOfInstruction l))
                      (stimulusInstructions this))) = Inr s
            \<and> stimulus this' (propertyKey (identifierOfInstruction l)) = Some s)
       \<and> dom (stimulus this') =
           dom (stimulus this)
           \<union> ((\<lambda>l. propertyKey (identifierOfInstruction l)) ` set (stimulusInstructions this)
               - {''__proto__''})"
proof -
  from assms(1) have
    c: "parseStimulusLoop (stimulusInstructions this) this = Inr this'"
    by (simp add: parseStimulus_def)
  from parseStimulusLoop_lookup [OF c assms(3)] assms(2)
  have "\<exists>s. stimulusOfInstruction
             (last (filter (\<lambda>l'. propertyKey (identifierOfInstruction l')
                                  = propertyKey (identifierOfInstruction l))
                      (stimulusInstructions this))) = Inr s
            \<and> stimulus this' (propertyKey (identifierOfInstruction l)) = Some s"
    by blast
  with parseStimulusLoop_dom [OF c] show ?thesis by simp
qed

lemma last_write_wins_instance:
  "\<exists>this'. parseStimulus two_lines_parser = Inr this'
     \<and> stimulus this' ''I1'' =
         Some \<lparr> stimulusType = Some ''text_file'', filePath = Present (Some ''b.txt''),
                button = Absent, content = Absent, fontSize = Present Null,
                fontColor = Present (Value (Some ''red'')) \<rparr>
     \<and> dom (stimulus this') = {''I1''}"
proof -
  obtain this' where ok: "parseStimulus two_lines_parser = Inr this'"
    by (simp add: eval_defs two_lines_parser_def)
  have mem: "''text_file I1 b.txt n red'' \<in> set (stimulusInstructions two_lines_parser)"
    by (simp add: two_lines_parser_def)
  have k1: "propertyKey (identifierOfInstruction ''image I1 a.png true'') = ''I1''"
    and k2: "propertyKey (identifierOfInstruction ''text_file I1 b.txt n red'') = ''I1''"
    by (simp_all add: eval_defs)
  have d: "stimulusOfInstruction ''text_file I1 b.txt n red'' =
      Inr \<lparr> stimulusType = Some ''text_file'', filePath = Present (Some ''b.txt''),
                button = Absent, content = Absent, fontSize = Present Null,
                fontColor = Present (Value (Some ''red'')) \<rparr>"
    by (simp add: eval_defs)
  from last_write_wins_for_ordinary_identifiers [OF ok mem]
  have "stimulus this' ''I1'' =
         Some \<lparr> stimulusType = Some ''text_file'', filePath = Present (Some ''b.txt''),
                button = Absent, content = Absent, fontSize = Present Null,
                fontColor = Present (Value (Some ''red'')) \<rparr>
     \<and> dom (stimulus this') = {''I1''}"
    by (simp add: two_lines_parser_def k1 k2 d new_Parser_def)
  with ok show ?thesis by blast
qed

text \<open>
  Claim C8: every successfully decoded identifier is to be a key of the
  catalog, mapped to the entity of the last line that carries it. This holds
  for every identifier but one (lemma
  \<open>last_write_wins_for_ordinary_identifiers\<close>). The line
  \<^verbatim>\<open>image __proto__ a.png true\<close> decodes, and its assignment makes the entity
  the prototype of the catalog object: the catalog has no key after it.
\<close>

theorem C8_proto_identifier_is_no_key:
  "stimulusOfInstruction ''image __proto__ a.png true'' =
     Inr \<lparr> stimulusType = Some ''image'', filePath = Present (Some ''a.png''),
           button = Present True, content = Absent, fontSize = Absent, fontColor = Absent \<rparr>
   \<and> identifierOfInstruction ''image __proto__ a.png true'' = Some ''__proto__''
   \<and> parseStimulus proto_line_parser =
       Inr (proto_line_parser\<lparr> stimulusPrototype :=
              Some \<lparr> stimulusType = Some ''image'', filePath = Present (Some ''a.png''),
                     button = Present True, content = Absent, fontSize = Absent,
                     fontColor = Absent \<rparr> \<rparr>)
   \<and> stimulus proto_line_parser = Map.empty
   \<and> stimulusInstructions proto_line_parser = [''image __proto__ a.png true'']"
  by (simp add: eval_defs proto_line_parser_def new_Parser_def assignStimulus_def)

subsection \<open>Sequence decoding\<close>

lemma attachFeedback_result:
  "attachFeedback t1 t2 sequence = Inr sequence' \<Longrightarrow>
   feedbackType sequence' = feedbackType sequence
   \<and> (feedbackType sequence = Some ''a'' \<longrightarrow>
        sequence' = sequence\<lparr> feedback1 := Present t1, feedback2 := Present t2 \<rparr>)
   \<and> (feedbackType sequence = Some ''tf'' \<longrightarrow> sequence' = sequence\<lparr> feedback2 := Present t2 \<rparr>)
   \<and> (feedbackType sequence = Some ''n'' \<or> feedbackType sequence = Some ''c'' \<longrightarrow>
        sequence' = sequence)
   \<and> feedbackType sequence \<in> {Some ''a'', Some ''tf'', Some ''n'', Some ''c''}"
  by (auto simp: attachFeedback_def Let_def split: if_splits)

lemma sequenceOfInstruction_Inr:
  assumes "sequenceOfInstruction this instruction = Inr sequence"
  shows "\<exists>resolved. choicesOf this (element (js_split instruction CHR 0x20) 3) = Inr resolved
     \<and> attachFeedback (element (js_split instruction CHR 0x20) 10)
          (element (js_split instruction CHR 0x20) 11)
          (sequenceLiteral (js_split instruction CHR 0x20) resolved) = Inr sequence"
  using assms
  by (auto simp: sequenceOfInstruction_def Let_def split: sum.splits)

lemma sequenceLiteral_fields:
  "feedbackType (sequenceLiteral ts resolved) = element ts 8"
  "feedback1 (sequenceLiteral ts resolved) = Absent"
  "feedback2 (sequenceLiteral ts resolved) = Absent"
  "choices (sequenceLiteral ts resolved) = resolved"
  by (simp_all add: sequenceLiteral_def)

text \<open>
  Claim C2: on a sequence line that decodes, feedback type \<^verbatim>\<open>a\<close> attaches
  \<^verbatim>\<open>feedback1\<close> and \<^verbatim>\<open>feedback2\<close> (the eleventh and twelfth token), type
  \<^verbatim>\<open>tf\<close> attaches only \<^verbatim>\<open>feedback2\<close>, types \<^verbatim>\<open>n\<close> and \<^verbatim>\<open>c\<close> attach
  neither; the feedback type is the ninth token and one of these four.
\<close>

theorem C2_feedback_fields:
  assumes "sequenceOfInstruction this instruction = Inr sequence"
  shows "(feedbackType sequence = Some ''a'' \<longrightarrow>
            feedback1 sequence = Present (element (js_split instruction CHR 0x20) 10)
          \<and> feedback2 sequence = Present (element (js_split instruction CHR 0x20) 11))
       \<and> (feedbackType sequence = Some ''tf'' \<longrightarrow>
            feedback1 sequence = Absent
          \<and> feedback2 sequence = Present (element (js_split instruction CHR 0x20) 11))
       \<and> (feedbackType sequence = Some ''n'' \<or> feedbackType sequence = Some ''c'' \<longrightarrow>
            feedback1 sequence = Absent \<and> feedback2 sequence = Absent)
       \<and> feedbackType sequence = element (js_split instruction CHR 0x20) 8
       \<and> feedbackType sequence \<in> {Some ''a'', Some ''tf'', Some ''n'', Some ''c''}"
proof -
  from sequenceOfInstruction_Inr [OF assms] obtain resolved where
    a: "attachFeedback (element (js_split instruction CHR 0x20) 10)
          (element (js_split instruction CHR 0x20) 11)
          (sequenceLiteral (js_split instruction CHR 0x20) resolved) = Inr sequence"
    by blast
  from attachFeedback_result [OF a] show ?thesis
    by (auto simp: sequenceLiteral_fields)
qed

theorem C2_feedback_fields_witness:
  "(\<exists>sequence. sequenceOfInstruction (new_Parser []) ''0 s1 100 n inf n 0 0 a 10 f1 f2 y'' = Inr sequence
      \<and> feedback1 sequence = Present (Some ''f1'') \<and> feedback2 sequence = Present (Some ''f2''))
   \<and> (\<exists>sequence. sequenceOfInstruction (new_Parser []) ''0 s1 100 n inf n 0 0 tf 10 f1 f2 y'' = Inr sequence
      \<and> feedback1 sequence = Absent \<and> feedback2 sequence = Present (Some ''f2''))
   \<and> (\<exists>sequence. sequenceOfInstruction (new_Parser []) ''0 s1 100 n inf n 0 0 c 10 f1 f2 y'' = Inr sequence
      \<and> feedback1 sequence = Absent \<and> feedback2 sequence = Absent)"
proof -
  obtain s1 where s1: "sequenceOfInstruction (new_Parser []) ''0 s1 100 n inf n 0 0 a 10 f1 f2 y'' = Inr s1"
    by (simp add: eval_defs)
  obtain s2 where s2: "sequenceOfInstruction (new_Parser []) ''0 s1 100 n inf n 0 0 tf 10 f1 f2 y'' = Inr s2"
    by (simp add: eval_defs)
  obtain s3 where s3: "sequenceOfInstruction (new_Parser []) ''0 s1 100 n inf n 0 0 c 10 f1 f2 y'' = Inr s3"
    by (simp add: eval_defs)
  from C2_feedback_fields [OF s1] have "feedback1 s1 = Present (Some ''f1'') \<and> feedback2 s1 = Present (Some ''f2'')"
    by (simp add: element_def)
  moreover from C2_feedback_fields [OF s2] have "feedback1 s2 = Absent \<and> feedback2 s2 = Present (Some ''f2'')"
    by (simp add: element_def)
  moreover from C2_feedback_fields [OF s3] have "feedback1 s3 = Absent \<and> feedback2 s3 = Absent"
    by (simp add: element_def)
  ultimately show ?thesis using s1 s2 s3 by simp
qed

lemma resolveChoices_found:
  "resolveChoices this ids = Inr found \<Longrightarrow>
   found = map (readStimulus this) ids \<and> list_all isTruthy found"
  by (induction ids arbitrary: found)
    (auto simp: getStimulusByIdentifier_def Let_def split: sum.splits if_splits)

lemma resolveChoices_missing:
  "\<exists>i \<in> set ids. \<not> isTruthy (readStimulus this i) \<Longrightarrow>
   \<exists>i \<in> set ids. \<not> isTruthy (readStimulus this i)
      \<and> resolveChoices this ids = Inl (UnknownStimulusIdentifier i)"
proof (induction ids)
  case Nil
  then show ?case by simp
next
  case (Cons i ids)
  show ?case
  proof (cases "isTruthy (readStimulus this i)")
    case False
    then show ?thesis by (simp add: getStimulusByIdentifier_def)
  next
    case True
    with Cons.prems have "\<exists>i \<in> set ids. \<not> isTruthy (readStimulus this i)" by auto
    from Cons.IH [OF this] True show ?thesis
      by (auto simp: getStimulusByIdentifier_def)
  qed
qed

lemma parseSequenceLoop_fails:
  "instruction \<in> set ls \<Longrightarrow> sequenceOfInstruction this instruction = Inl e \<Longrightarrow>
   \<exists>e'. parseSequenceLoop this ls buffer = Inl e'"
  by (induction ls arbitrary: buffer) (auto split: sum.splits)

text \<open>
  A name that is no own property of the catalog reads as \<^verbatim>\<open>undefined\<close> when
  the catalog has its first prototype and the name is none of those that
  \<^verbatim>\<open>Object.prototype\<close> defines.
\<close>

lemma readStimulus_absent:
  assumes "stimulus this name = None" and "stimulusPrototype this = None"
    and "name \<noteq> ''__proto__''" and "name \<notin> set objectPrototypeMethods"
  shows "readStimulus this name = Undefined"
  using assms by (simp add: readStimulus_def)

lemma readStimulus_own:
  "stimulus this name = Some e \<Longrightarrow> readStimulus this name = StimulusValue e"
  by (simp add: readStimulus_def)

text \<open>
  In version 2, when the choices token of a sequence line is not \<^verbatim>\<open>n\<close>, a
  decoded step embeds, in the order of the comma-separated list, what the
  catalog object has under every identifier; and when the read of some
  identifier gives no truthy value the line fails with the unknown-identifier
  error for such an identifier, as does the decoding of every section that
  holds the line.
\<close>

lemma v2_choices_resolved_or_rejected:
  assumes "element (js_split instruction CHR 0x20) 3 = Some c" and "c \<noteq> ''n''"
  shows "(\<forall>sequence. sequenceOfInstruction this instruction = Inr sequence \<longrightarrow>
            choices sequence = ChoiceList (map (readStimulus this) (js_split c CHR 0x2C)))
       \<and> ((\<exists>i \<in> set (js_split c CHR 0x2C). \<not> isTruthy (readStimulus this i)) \<longrightarrow>
            (\<exists>i \<in> set (js_split c CHR 0x2C). \<not> isTruthy (readStimulus this i)
               \<and> sequenceOfInstruction this instruction = Inl (UnknownStimulusIdentifier i))
          \<and> (\<forall>ls buffer. instruction \<in> set ls \<longrightarrow> (\<exists>e. parseSequenceLoop this ls buffer = Inl e)))"
proof (intro conjI allI impI)
  fix sequence
  assume ok: "sequenceOfInstruction this instruction = Inr sequence"
  from sequenceOfInstruction_Inr [OF ok] obtain resolved where
    r: "choicesOf this (element (js_split instruction CHR 0x20) 3) = Inr resolved"
    and a: "attachFeedback (element (js_split instruction CHR 0x20) 10)
          (element (js_split instruction CHR 0x20) 11)
          (sequenceLiteral (js_split instruction CHR 0x20) resolved) = Inr sequence"
    by blast
  from a have "choices sequence = resolved"
    by (auto simp: attachFeedback_def Let_def sequenceLiteral_fields split: if_splits)
  moreover from r assms obtain found where "resolved = ChoiceList found"
    and "resolveChoices this (js_split c CHR 0x2C) = Inr found"
    by (auto simp: choicesOf_def split: sum.splits)
  ultimately show "choices sequence = ChoiceList (map (readStimulus this) (js_split c CHR 0x2C))"
    using resolveChoices_found by auto
next
  assume m: "\<exists>i \<in> set (js_split c CHR 0x2C). \<not> isTruthy (readStimulus this i)"
  from resolveChoices_missing [OF m] assms
  show *: "\<exists>i \<in> set (js_split c CHR 0x2C). \<not> isTruthy (readStimulus this i)
               \<and> sequenceOfInstruction this instruction = Inl (UnknownStimulusIdentifier i)"
    by (auto simp: sequenceOfInstruction_def choicesOf_def Let_def)
  fix ls buffer
  assume "instruction \<in> set ls"
  with * show "\<exists>e. parseSequenceLoop this ls buffer = Inl e"
    using parseSequenceLoop_fails by blast
qed

lemma v2_choices_resolved_or_rejected_instance:
  "sequenceOfInstruction catalog_parser ''0 s1 100 I1,X9 inf n 0 0 n n n n y''
     = Inl (UnknownStimulusIdentifier ''X9'')
   \<and> (\<exists>sequence. sequenceOfInstruction catalog_parser ''0 s1 100 I1,I1 inf n 0 0 n n n n y''
          = Inr sequence
        \<and> choices sequence = ChoiceList [StimulusValue I1_entity, StimulusValue I1_entity])"
proof -
  have t1: "element (js_split ''0 s1 100 I1,X9 inf n 0 0 n n n n y'' CHR 0x20) 3 = Some ''I1,X9''"
    and t2: "element (js_split ''0 s1 100 I1,I1 inf n 0 0 n n n n y'' CHR 0x20) 3 = Some ''I1,I1''"
    by (simp_all add: element_def)
  have n1: "''I1,X9'' \<noteq> ''n''" and n2: "''I1,I1'' \<noteq> ''n''" by simp_all
  have missing: "\<exists>i \<in> set (js_split ''I1,X9'' CHR 0x2C). \<not> isTruthy (readStimulus catalog_parser i)"
    by (simp add: catalog_parser_def readStimulus_def new_Parser_def objectPrototypeMethods_def)
  from v2_choices_resolved_or_rejected [OF t1 n1, of catalog_parser] missing
  have a: "sequenceOfInstruction catalog_parser ''0 s1 100 I1,X9 inf n 0 0 n n n n y''
     = Inl (UnknownStimulusIdentifier ''X9'')"
    by (auto simp: catalog_parser_def readStimulus_def)
  obtain sequence where ok: "sequenceOfInstruction catalog_parser
      ''0 s1 100 I1,I1 inf n 0 0 n n n n y'' = Inr sequence"
    by (simp add: eval_defs catalog_parser_def readStimulus_def)
  from v2_choices_resolved_or_rejected [OF t2 n2, of catalog_parser] ok
  have "choices sequence = ChoiceList (map (readStimulus catalog_parser) (js_split ''I1,I1'' CHR 0x2C))"
    by blast
  then have "choices sequence = ChoiceList [StimulusValue I1_entity, StimulusValue I1_entity]"
    by (simp add: catalog_parser_def readStimulus_def)
  with a ok show ?thesis by simp
qed

text \<open>
  Version 2 does not reject an identifier that is no key of the catalog when
  the catalog object inherits a property of that name: the test
  \<^verbatim>\<open>if (found)\<close> sees the inherited method.
\<close>

lemma v2_inherited_name_accepted:
  "stimulus catalog_parser ''constructor'' = None
   \<and> getStimulusByIdentifier catalog_parser ''constructor''
       = Inr (BuiltinFunction ''constructor'')
   \<and> getStimulusByIdentifier catalog_parser ''__proto__'' = Inr ObjectPrototype"
  by (simp add: getStimulusByIdentifier_def readStimulus_def catalog_parser_def new_Parser_def
      objectPrototypeMethods_def)

text \<open>
  Claim C4: an identifier of the choices list that is not in the catalog is to
  make the decoding fail with the unknown-identifier error. In the earlier
  revision \<^verbatim>\<open>getStimulusByIdentifier\<close> has no test, and the \<^verbatim>\<open>map\<close> over the
  identifiers of \<^verbatim>\<open>I1,X9\<close> puts \<^verbatim>\<open>undefined\<close> in the place of the unknown
  \<^verbatim>\<open>X9\<close>, where version 2 throws (lemma \<open>v2_choices_resolved_or_rejected\<close>;
  version 2 in its turn lets the inherited names pass, lemma
  \<open>v2_inherited_name_accepted\<close>).
\<close>

theorem C4_v1_unknown_identifier_not_rejected:
  "stimulus catalog_parser ''X9'' = None
   \<and> map (getStimulusByIdentifier_v1 catalog_parser) (js_split ''I1,X9'' CHR 0x2C)
       = [StimulusValue I1_entity, Undefined]
   \<and> resolveChoices catalog_parser (js_split ''I1,X9'' CHR 0x2C)
       = Inl (UnknownStimulusIdentifier ''X9'')"
  by (simp add: getStimulusByIdentifier_v1_def getStimulusByIdentifier_def readStimulus_def
      catalog_parser_def new_Parser_def objectPrototypeMethods_def)

lemma getStimulusByIdentifier_v1_never_fails:
  "getStimulusByIdentifier_v1 this stimulusIdentifier = readStimulus this stimulusIdentifier"
  by (simp add: getStimulusByIdentifier_v1_def)

subsection \<open>The whole run\<close>














end
